theory Spec2Isabelle
  imports Complex_Main "HOL-Library.Sublist"
begin

section \<open>Strings\<close>

text \<open>
  A JavaScript string is a sequence of UTF-16 code units. A code unit is modelled as a
  natural number (every real code unit is below 65536; no function below depends on the
  bound). \<open>js\<close> turns an Isabelle literal of ASCII characters into such a string.
\<close>

type_synonym jschar = nat
type_synonym jsstring = "jschar list"

definition js :: "string \<Rightarrow> jsstring" where
  "js s = map of_char s"

definition LF :: jschar where "LF = 10"
definition CR :: jschar where "CR = 13"

definition isLineTerminator :: "jschar \<Rightarrow> bool" where
  \<comment> \<open>ECMAScript LineTerminator: LF, CR, U+2028, U+2029.\<close>
  "isLineTerminator c = (c = 10 \<or> c = 13 \<or> c = 8232 \<or> c = 8233)"

definition isSpace :: "jschar \<Rightarrow> bool" where
  \<comment> \<open>The class \<open>\s\<close>: WhiteSpace (TAB, VT, FF, SP, NBSP, ZWNBSP and the category Zs)
      together with LineTerminator.\<close>
  "isSpace c = (c = 9 \<or> c = 10 \<or> c = 11 \<or> c = 12 \<or> c = 13 \<or> c = 32 \<or> c = 160
      \<or> c = 5760 \<or> (8192 \<le> c \<and> c \<le> 8202) \<or> c = 8232 \<or> c = 8233 \<or> c = 8239
      \<or> c = 8287 \<or> c = 12288 \<or> c = 65279)"

definition isBlank :: "jschar \<Rightarrow> bool" where
  \<comment> \<open>The class \<open>[ \t]\<close>.\<close>
  "isBlank c = (c = 32 \<or> c = 9)"

definition notSemicolon :: "jschar \<Rightarrow> bool" where
  \<comment> \<open>The class \<open>[^;]\<close>.\<close>
  "notSemicolon c = (c \<noteq> 59)"

definition dot :: "jschar \<Rightarrow> bool" where
  \<comment> \<open>The pattern \<open>.\<close> without the \<open>s\<close> flag: any code unit but a LineTerminator.\<close>
  "dot c = (\<not> isLineTerminator c)"

definition canonicalize :: "jschar \<Rightarrow> jschar" where
  \<comment> \<open>Canonicalize of a case-insensitive, non-unicode pattern, on the ASCII range:
      a lower-case ASCII letter goes to its upper-case letter. A code unit from 128 on is
      never mapped into ASCII by Canonicalize, so against the ASCII patterns of this
      program it compares as itself.\<close>
  "canonicalize c = (if 97 \<le> c \<and> c \<le> 122 then c - 32 else c)"

section \<open>Regular expressions\<close>

text \<open>
  The backtracking matcher of ECMAScript, for the fragment the program uses. A matcher
  takes the input that is left at the current index and returns what is left after each of
  its matches there, in the order in which backtracking tries them (the empty list is
  failure).
\<close>

type_synonym matcher = "jsstring \<Rightarrow> jsstring list"

fun strip_prefix :: "jsstring \<Rightarrow> jsstring \<Rightarrow> jsstring option" where
  "strip_prefix [] s = Some s"
| "strip_prefix (p # ps) [] = None"
| "strip_prefix (p # ps) (c # cs) = (if c = p then strip_prefix ps cs else None)"

fun strip_prefix_i :: "jsstring \<Rightarrow> jsstring \<Rightarrow> jsstring option" where
  "strip_prefix_i [] s = Some s"
| "strip_prefix_i (p # ps) [] = None"
| "strip_prefix_i (p # ps) (c # cs) =
     (if canonicalize c = canonicalize p then strip_prefix_i ps cs else None)"

definition lit :: "jsstring \<Rightarrow> matcher" where
  "lit p s = (case strip_prefix p s of None \<Rightarrow> [] | Some r \<Rightarrow> [r])"

definition lit_i :: "jsstring \<Rightarrow> matcher" where
  \<comment> \<open>A literal under the \<open>i\<close> flag.\<close>
  "lit_i p s = (case strip_prefix_i p s of None \<Rightarrow> [] | Some r \<Rightarrow> [r])"

fun cls :: "(jschar \<Rightarrow> bool) \<Rightarrow> matcher" where
  "cls P [] = []"
| "cls P (c # cs) = (if P c then [cs] else [])"

fun star :: "(jschar \<Rightarrow> bool) \<Rightarrow> matcher" where
  \<comment> \<open>Greedy \<open>*\<close> on a character class: the longest run first, then each shorter one.\<close>
  "star P [] = [[]]"
| "star P (c # cs) = (if P c then star P cs @ [c # cs] else [c # cs])"

fun eol :: matcher where
  \<comment> \<open>\<open>$\<close> under the \<open>m\<close> flag.\<close>
  "eol [] = [[]]"
| "eol (c # cs) = (if isLineTerminator c then [c # cs] else [])"

fun eoi :: matcher where
  \<comment> \<open>\<open>$\<close> without the \<open>m\<close> flag.\<close>
  "eoi [] = [[]]"
| "eoi (c # cs) = []"

definition seq :: "matcher \<Rightarrow> matcher \<Rightarrow> matcher" where
  "seq m1 m2 s = concat (map m2 (m1 s))"

definition alt :: "matcher \<Rightarrow> matcher \<Rightarrow> matcher" where
  "alt m1 m2 s = m1 s @ m2 s"

definition eps :: matcher where
  "eps s = [s]"

definition seqs :: "matcher list \<Rightarrow> matcher" where
  "seqs ms = foldr seq ms eps"

text \<open>
  A pattern is a matcher together with the information whether it begins with \<open>^\<close> under
  the \<open>m\<close> flag (the only place where the program uses \<open>^\<close>): such a pattern can match
  only at index 0 or right after a LineTerminator.
\<close>

datatype anchor = Anywhere | LineStart

fun search :: "anchor \<Rightarrow> matcher \<Rightarrow> bool \<Rightarrow> jsstring \<Rightarrow> (jsstring \<times> jsstring) option" where
  \<comment> \<open>The first match of a pattern without the \<open>g\<close> flag: the least start index that has
      a match, with the first end backtracking finds there. The result is the input left
      at the start and at the end of the match. The flag says whether the current index
      is the start of a line.\<close>
  "search a m b [] =
     (case (if a = Anywhere \<or> b then m [] else []) of [] \<Rightarrow> None | e # _ \<Rightarrow> Some ([], e))"
| "search a m b (c # cs) =
     (case (if a = Anywhere \<or> b then m (c # cs) else []) of
        [] \<Rightarrow> search a m (isLineTerminator c) cs
      | e # _ \<Rightarrow> Some (c # cs, e))"

type_synonym regexp = "anchor \<times> matcher"

definition exec :: "regexp \<Rightarrow> jsstring \<Rightarrow> (jsstring \<times> jsstring) option" where
  "exec re s = search (fst re) (snd re) True s"

definition test :: "regexp \<Rightarrow> jsstring \<Rightarrow> bool" where
  "test re s = (exec re s \<noteq> None)"

definition match1 :: "regexp \<Rightarrow> jsstring \<Rightarrow> jsstring option" where
  \<comment> \<open>\<open>s.match(re)\<close> for a pattern that is one capturing group: the text of group 1.\<close>
  "match1 re s =
     (case exec re s of None \<Rightarrow> None
      | Some (b, e) \<Rightarrow> Some (take (length b - length e) b))"

definition replace_first :: "regexp \<Rightarrow> jsstring \<Rightarrow> jsstring \<Rightarrow> jsstring" where
  \<comment> \<open>\<open>s.replace(re, r)\<close> for a pattern without the \<open>g\<close> flag.\<close>
  "replace_first re r s =
     (case exec re s of None \<Rightarrow> s
      | Some (b, e) \<Rightarrow> take (length s - length b) s @ r @ e)"

definition count_char :: "jschar \<Rightarrow> jsstring \<Rightarrow> nat" where
  \<comment> \<open>\<open>(s.match(/c/g) || []).length\<close> for a pattern that is one literal code unit. The
      program counts \<open>{\<close>, the code unit 123, and \<open>}\<close>, the code unit 125.\<close>
  "count_char c s = length (filter (\<lambda>x. x = c) s)"

fun split_lines :: "jsstring \<Rightarrow> jsstring list" where
  \<comment> \<open>\<open>s.split(/\r?\n/)\<close>\<close>
  "split_lines [] = [[]]"
| "split_lines [c] = (if c = LF then [[], []] else [[c]])"
| "split_lines (c # d # s) =
     (if c = CR \<and> d = LF then [] # split_lines s
      else if c = LF then [] # split_lines (d # s)
      else (case split_lines (d # s) of l # ls \<Rightarrow> (c # l) # ls | [] \<Rightarrow> [[c]]))"

fun join_lines :: "jsstring list \<Rightarrow> jsstring" where
  \<comment> \<open>\<open>lines.join('\n')\<close>\<close>
  "join_lines [] = []"
| "join_lines [l] = l"
| "join_lines (l # m # ls) = l @ LF # join_lines (m # ls)"

subsection \<open>The patterns of the program\<close>

definition re_printf_call :: regexp where
  \<comment> \<open>\<open>/printf\s*\(/\<close>\<close>
  "re_printf_call =
     (Anywhere, seqs [lit (js ''printf''), star isSpace, lit (js ''('')])"

definition re_stdio_include :: regexp where
  \<comment> \<open>\<open>/#\s*include\s*<stdio.h>/\<close>\<close>
  "re_stdio_include =
     (Anywhere, seqs [lit (js ''#''), star isSpace, lit (js ''include''), star isSpace,
           lit (js ''<stdio''), cls dot, lit (js ''h>'')])"

definition re_printf_line :: regexp where
  \<comment> \<open>\<open>/(^.*printf\s*\([^;]*\)[ \t]*$)/m\<close>\<close>
  "re_printf_line =
     (LineStart, seqs [star dot, lit (js ''printf''), star isSpace, lit (js ''(''),
           star notSemicolon, lit (js '')''), star isBlank, eol])"

definition re_trailing_semicolon :: regexp where
  \<comment> \<open>\<open>/;\s*$/\<close>\<close>
  "re_trailing_semicolon =
     (Anywhere, seqs [lit (js '';''), star isSpace, eoi])"

definition re_double_semicolon :: regexp where
  \<comment> \<open>\<open>/;;/\<close>\<close>
  "re_double_semicolon =
     (Anywhere, lit (js '';;''))"

definition re_printf_unterminated :: regexp where
  \<comment> \<open>\<open>/printf\s*\([^;]*\)\s*$/\<close>\<close>
  "re_printf_unterminated =
     (Anywhere, seqs [lit (js ''printf''), star isSpace, lit (js ''(''), star notSemicolon,
           lit (js '')''), star isSpace, eoi])"

definition re_close_brace :: regexp where
  \<comment> \<open>\<open>/\}/\<close>\<close>
  "re_close_brace =
     (Anywhere, lit (js ''}''))"

definition re_msg_stdio :: regexp where
  \<comment> \<open>\<open>/stdio/i\<close>\<close>
  "re_msg_stdio =
     (Anywhere, lit_i (js ''stdio''))"

definition re_msg_semicolon :: regexp where
  \<comment> \<open>\<open>/semicolon/i\<close>\<close>
  "re_msg_semicolon =
     (Anywhere, lit_i (js ''semicolon''))"

definition re_msg_brace :: regexp where
  \<comment> \<open>\<open>/brace/i\<close>\<close>
  "re_msg_brace =
     (Anywhere, lit_i (js ''brace''))"

definition re_msg_extra :: regexp where
  \<comment> \<open>\<open>/extra semicolon|duplicate/i\<close>\<close>
  "re_msg_extra =
     (Anywhere, alt (lit_i (js ''extra semicolon'')) (lit_i (js ''duplicate'')))"

section \<open>Data\<close>

text \<open>
  The objects the two handlers and the editor exchange, with the keys they carry. An
  optional key is an \<open>option\<close>. The confidence of a fix is the decimal literal of the
  source as a rational number.
\<close>

record diagnostic =
  d_type :: jsstring
  d_message :: jsstring
  d_line :: "nat option"

record token =
  t_type :: jsstring
  t_value :: jsstring
  t_line :: nat

record edit =
  e_type :: jsstring
  e_line :: "int option"
  e_content :: "jsstring option"
  e_original :: "jsstring option"
  e_replacement :: "jsstring option"

record fix_obj =
  f_description :: jsstring
  f_confidence :: rat
  f_edit :: "edit option"

record compile_response =
  r_status :: jsstring
  r_message :: jsstring
  r_tokens :: "token list"
  r_errors :: "diagnostic list"
  r_fixes :: "fix_obj list"

subsection \<open>The diagnostics the handlers push\<close>

definition MissingInclude :: diagnostic where
  "MissingInclude =
     \<lparr>d_type = js ''ReferenceError'',
      d_message = js ''printf may be undeclared (missing #include <stdio.h>)'',
      d_line = None\<rparr>"

definition MissingSemicolon :: diagnostic where
  "MissingSemicolon =
     \<lparr>d_type = js ''SyntaxError'', d_message = js ''Missing semicolon after statement'',
      d_line = None\<rparr>"

definition ExtraSemicolon :: "nat \<Rightarrow> diagnostic" where
  "ExtraSemicolon n =
     \<lparr>d_type = js ''SyntaxWarning'', d_message = js ''Extra semicolon detected'',
      d_line = Some n\<rparr>"

definition UnmatchedBraces :: diagnostic where
  "UnmatchedBraces =
     \<lparr>d_type = js ''SyntaxError'', d_message = js ''Unmatched braces'', d_line = None\<rparr>"

section \<open>The detector: the checks of the \<open>/compile\<close> handler\<close>

fun extra_semicolons :: "nat \<Rightarrow> jsstring list \<Rightarrow> diagnostic list" where
  \<comment> \<open>The loop \<open>for (let i = 0; i < lines.length; i++)\<close> from index \<open>i\<close> on, over the
      lines that are left.\<close>
  "extra_semicolons i [] = []"
| "extra_semicolons i (l # ls) =
     (if test re_double_semicolon l then [ExtraSemicolon (i + 1)] else [])
     @ extra_semicolons (i + 1) ls"

definition analyze :: "jsstring \<Rightarrow> diagnostic list" where
  "analyze code =
     (let lines = split_lines code;
          hasPrintf = test re_printf_call code;
          hasStdio = test re_stdio_include code;
          errors1 = (if hasPrintf \<and> \<not> hasStdio then [MissingInclude] else []);
          errors2 = errors1 @
            (case match1 re_printf_line code of
               None \<Rightarrow> []
             | Some lineText \<Rightarrow>
                 if \<not> test re_trailing_semicolon lineText then [MissingSemicolon] else []);
          errors3 = errors2 @ extra_semicolons 0 lines;
          openBraces = count_char 123 code;
          closeBraces = count_char 125 code;
          errors4 = errors3 @ (if openBraces \<noteq> closeBraces then [UnmatchedBraces] else [])
      in errors4)"

section \<open>The fix synthesizer: \<open>generateFixes\<close>\<close>

fun first_line :: "(jsstring \<Rightarrow> bool) \<Rightarrow> nat \<Rightarrow> jsstring list \<Rightarrow> (nat \<times> jsstring) option" where
  \<comment> \<open>A forward loop over the lines that stops at the first line that passes the test:
      its index and its text.\<close>
  "first_line P i [] = None"
| "first_line P i (l # ls) = (if P l then Some (i, l) else first_line P (i + 1) ls)"

fun last_line :: "(jsstring \<Rightarrow> bool) \<Rightarrow> nat \<Rightarrow> jsstring list \<Rightarrow> (nat \<times> jsstring) option" where
  \<comment> \<open>The backward loop \<open>for (let i = lines.length - 1; i >= 0; i--)\<close> that stops at the
      first line it meets that passes the test, which is the last such line.\<close>
  "last_line P i [] = None"
| "last_line P i (l # ls) =
     (case last_line P (i + 1) ls of
        Some r \<Rightarrow> Some r
      | None \<Rightarrow> if P l then Some (i, l) else None)"

definition include_fix :: fix_obj where
  "include_fix =
     \<lparr>f_description = js ''Add #include <stdio.h> at the top to declare printf'',
      f_confidence = 9 / 10,
      f_edit = Some \<lparr>e_type = js ''insert'', e_line = Some 1,
                      e_content = Some (js ''#include <stdio.h>\<newline>''),
                      e_original = None, e_replacement = None\<rparr>\<rparr>"

definition semicolon_fix :: "nat \<Rightarrow> jsstring \<Rightarrow> fix_obj" where
  "semicolon_fix i original =
     \<lparr>f_description = js ''Add missing semicolon to end of statement'',
      f_confidence = 95 / 100,
      f_edit = Some \<lparr>e_type = js ''replace'', e_line = Some (int i + 1),
                      e_content = None,
                      e_original = Some original,
                      e_replacement = Some (original @ js '';'')\<rparr>\<rparr>"

definition close_brace_fix :: "jsstring list \<Rightarrow> fix_obj" where
  "close_brace_fix lines =
     \<lparr>f_description = js ''Add missing closing brace at end of file'',
      f_confidence = 85 / 100,
      f_edit = Some \<lparr>e_type = js ''insert'', e_line = Some (int (length lines) + 1),
                      e_content = Some (js ''\<newline>}''),
                      e_original = None, e_replacement = None\<rparr>\<rparr>"

definition remove_brace_fix :: "nat \<Rightarrow> jsstring \<Rightarrow> fix_obj" where
  "remove_brace_fix i original =
     \<lparr>f_description = js ''Remove an extra closing brace'',
      f_confidence = 6 / 10,
      f_edit = Some \<lparr>e_type = js ''replace'', e_line = Some (int i + 1),
                      e_content = None,
                      e_original = Some original,
                      e_replacement = Some []\<rparr>\<rparr>"

definition extra_semicolon_fix :: "nat \<Rightarrow> jsstring \<Rightarrow> fix_obj" where
  "extra_semicolon_fix i original =
     \<lparr>f_description = js ''Remove extra semicolon'',
      f_confidence = 9 / 10,
      f_edit = Some \<lparr>e_type = js ''replace'', e_line = Some (int i + 1),
                      e_content = None,
                      e_original = Some original,
                      e_replacement = Some (replace_first re_double_semicolon (js '';'') original)\<rparr>\<rparr>"

definition some_message :: "regexp \<Rightarrow> diagnostic list \<Rightarrow> bool" where
  \<comment> \<open>\<open>errors.some(e => re.test(e.message))\<close>\<close>
  "some_message re errors = list_ex (\<lambda>e. test re (d_message e)) errors"

definition generateFixes :: "jsstring \<Rightarrow> diagnostic list \<Rightarrow> fix_obj list" where
  "generateFixes code errors =
     (let lines = split_lines code;
          fixes1 = (if some_message re_msg_stdio errors then [include_fix] else []);
          fixes2 = fixes1 @
            (if some_message re_msg_semicolon errors then
               (case first_line (test re_printf_unterminated) 0 lines of
                  Some (i, original) \<Rightarrow> [semicolon_fix i original]
                | None \<Rightarrow> [])
             else []);
          fixes3 = fixes2 @
            (if some_message re_msg_brace errors then
               (let open = count_char 123 code;
                    close = count_char 125 code
                in if open > close then [close_brace_fix lines]
                   else if close > open then
                     (case last_line (test re_close_brace) 0 lines of
                        Some (i, original) \<Rightarrow> [remove_brace_fix i original]
                      | None \<Rightarrow> [])
                   else [])
             else []);
          fixes4 = fixes3 @
            (if some_message re_msg_extra errors then
               (case first_line (test re_double_semicolon) 0 lines of
                  Some (i, original) \<Rightarrow> [extra_semicolon_fix i original]
                | None \<Rightarrow> [])
             else [])
      in fixes4)"

section \<open>The handlers\<close>

text \<open>
  Both handlers are modelled from \<open>const code = payload.code || ''\<close> on: the input is
  the code string. The parsing of the request body and its 400 answer are not part of
  the model.
\<close>

definition success_tokens :: "token list" where
  "success_tokens =
     [\<lparr>t_type = js ''keyword'', t_value = js ''int'', t_line = 1\<rparr>,
      \<lparr>t_type = js ''identifier'', t_value = js ''main'', t_line = 1\<rparr>]"

definition compile :: "jsstring \<Rightarrow> compile_response" where
  \<comment> \<open>The answer of \<open>POST /compile\<close>.\<close>
  "compile code =
     (let errors = analyze code
      in if length errors = 0 then
           \<lparr>r_status = js ''success'', r_message = js ''Mock compilation succeeded'',
            r_tokens = success_tokens, r_errors = [], r_fixes = []\<rparr>
         else
           \<lparr>r_status = js ''error'', r_message = js ''Mock compilation failed'',
            r_tokens = [], r_errors = errors, r_fixes = generateFixes code errors\<rparr>)"

definition fix_errors :: "jsstring \<Rightarrow> diagnostic list" where
  \<comment> \<open>The checks as the \<open>/fix\<close> handler repeats them.\<close>
  "fix_errors code =
     (let hasPrintf = test re_printf_call code;
          hasStdio = test re_stdio_include code;
          errors1 = (if hasPrintf \<and> \<not> hasStdio then [MissingInclude] else []);
          errors2 = errors1 @
            (case match1 re_printf_line code of
               None \<Rightarrow> []
             | Some lineText \<Rightarrow>
                 if \<not> test re_trailing_semicolon lineText then [MissingSemicolon] else []);
          lines = split_lines code;
          errors3 = errors2 @ extra_semicolons 0 lines;
          openBraces = count_char 123 code;
          closeBraces = count_char 125 code;
          errors4 = errors3 @ (if openBraces \<noteq> closeBraces then [UnmatchedBraces] else [])
      in errors4)"

definition fix_handler :: "jsstring \<Rightarrow> fix_obj list" where
  \<comment> \<open>The \<open>fixes\<close> of the answer of \<open>POST /fix\<close>.\<close>
  "fix_handler code = generateFixes code (fix_errors code)"

section \<open>The edit applier: \<open>applyFix\<close>\<close>

text \<open>
  \<open>applyFix\<close> reads the editor's \<open>code\<close> state and sets it; the model takes the code and
  returns the new code. An absent fix and a fix without \<open>edit\<close> leave the state as it is.
  The line of an edit is an integer when it is a number.
\<close>

definition lineIndex :: "jsstring list \<Rightarrow> edit \<Rightarrow> nat" where
  \<comment> \<open>\<open>Math.max(0, Math.min(lines.length, (edit.line || 1) - 1))\<close>\<close>
  "lineIndex lines edit =
     nat (max 0 (min (int (length lines))
       ((case e_line edit of None \<Rightarrow> 1 | Some n \<Rightarrow> if n = 0 then 1 else n) - 1)))"

definition or_empty :: "jsstring option \<Rightarrow> jsstring" where
  \<comment> \<open>\<open>x || ''\<close>\<close>
  "or_empty x = (case x of None \<Rightarrow> [] | Some c \<Rightarrow> c)"

definition replacement_text :: "edit \<Rightarrow> jsstring" where
  \<comment> \<open>\<open>edit.replacement !== undefined ? edit.replacement : edit.content || ''\<close>\<close>
  "replacement_text edit =
     (case e_replacement edit of Some r \<Rightarrow> r | None \<Rightarrow> or_empty (e_content edit))"

definition assign_line :: "jsstring list \<Rightarrow> nat \<Rightarrow> jsstring \<Rightarrow> jsstring list" where
  \<comment> \<open>\<open>lines[i] = x\<close> for \<open>i \<le> lines.length\<close>: an assignment at \<open>lines.length\<close> extends
      the array by one element.\<close>
  "assign_line lines i x = (if i < length lines then lines[i := x] else lines @ [x])"

definition apply_edit :: "jsstring list \<Rightarrow> edit \<Rightarrow> jsstring list" where
  \<comment> \<open>What \<open>applyFix\<close> does to the array \<open>lines\<close>.\<close>
  "apply_edit lines edit =
     (let i = lineIndex lines edit
      in if e_type edit = js ''insert'' then
           take i lines @ split_lines (or_empty (e_content edit)) @ drop i lines
         else if e_type edit = js ''replace'' then
           (if e_line edit \<noteq> None then assign_line lines i (replacement_text edit)
            else lines)
         else lines)"

definition applyFix :: "jsstring \<Rightarrow> fix_obj option \<Rightarrow> jsstring" where
  "applyFix code fx =
     (case fx of
        None \<Rightarrow> code
      | Some f \<Rightarrow>
          (case f_edit f of
             None \<Rightarrow> code
           | Some edit \<Rightarrow> join_lines (apply_edit (split_lines code) edit)))"

definition line_count :: "jsstring \<Rightarrow> nat" where
  \<comment> \<open>The number of lines of a buffer: of the array \<open>code.split(/\r?\n/)\<close>.\<close>
  "line_count code = length (split_lines code)"

definition edit_text :: "edit \<Rightarrow> jsstring" where
  \<comment> \<open>The text an edit brings into the buffer: the content of an insertion, the
      replacement of any other edit.\<close>
  "edit_text edit =
     (if e_type edit = js ''insert'' then or_empty (e_content edit) else replacement_text edit)"

section \<open>Evaluation\<close>

text \<open>The equations that evaluate the patterns and the program on a given input.\<close>

lemmas re_defs =
  js_def test_def exec_def match1_def replace_first_def seqs_def seq_def lit_def lit_i_def
  alt_def eps_def isSpace_def isBlank_def notSemicolon_def dot_def isLineTerminator_def
  canonicalize_def count_char_def LF_def CR_def

lemmas pat_defs =
  re_printf_call_def re_stdio_include_def re_printf_line_def re_trailing_semicolon_def
  re_double_semicolon_def re_printf_unterminated_def re_close_brace_def re_msg_stdio_def
  re_msg_semicolon_def re_msg_brace_def re_msg_extra_def

lemmas diag_defs =
  MissingInclude_def MissingSemicolon_def ExtraSemicolon_def UnmatchedBraces_def

lemmas fix_defs =
  include_fix_def semicolon_fix_def close_brace_fix_def remove_brace_fix_def
  extra_semicolon_fix_def

lemmas apply_defs =
  applyFix_def apply_edit_def lineIndex_def or_empty_def replacement_text_def
  assign_line_def line_count_def

section \<open>Lines\<close>

lemma split_lines_not_Nil: "split_lines s \<noteq> []"
  by (induction s rule: split_lines.induct) (auto split: list.splits)

lemma length_split_lines: "length (split_lines s) = Suc (count_char LF s)"
  by (induction s rule: split_lines.induct)
     (auto simp: count_char_def LF_def CR_def split_lines_not_Nil split: list.splits)

lemma count_split_lines:
  "c \<noteq> LF \<Longrightarrow> c \<noteq> CR \<Longrightarrow> sum_list (map (count_char c) (split_lines s)) = count_char c s"
  by (induction s rule: split_lines.induct)
     (auto simp: count_char_def LF_def CR_def split: list.splits)

lemma LF_split_lines: "l \<in> set (split_lines s) \<Longrightarrow> count_char LF l = 0"
  by (induction s arbitrary: l rule: split_lines.induct)
     (auto simp: count_char_def LF_def CR_def split: list.splits if_splits)

lemma count_join_lines:
  "count_char c (join_lines ls) =
     sum_list (map (count_char c) ls) + (if c = LF then length ls - 1 else 0)"
  by (induction ls rule: join_lines.induct) (auto simp: count_char_def)

lemma sum_LF_split_lines: "sum_list (map (count_char LF) (split_lines s)) = 0"
  by (simp add: LF_split_lines)

lemma line_count_join_lines:
  "ls \<noteq> [] \<Longrightarrow> line_count (join_lines ls) = length ls + sum_list (map (count_char LF) ls)"
  by (cases ls) (simp_all add: line_count_def length_split_lines count_join_lines)

lemma sum_list_update_zero:
  "\<forall>l \<in> set ls. f l = (0::nat) \<Longrightarrow> i < length ls \<Longrightarrow> sum_list (map f (ls[i := x])) = f x"
  by (induction ls arbitrary: i) (auto split: nat.splits)

lemma sum_list_take_zero:
  "\<forall>l \<in> set ls. f l = (0::nat) \<Longrightarrow> sum_list (map f (take i ls)) = 0"
  by (auto dest: in_set_takeD)

lemma sum_list_drop_zero:
  "\<forall>l \<in> set ls. f l = (0::nat) \<Longrightarrow> sum_list (map f (drop i ls)) = 0"
  by (auto dest: in_set_dropD)

lemma lineIndex_le: "lineIndex ls e \<le> length ls"
  by (simp add: lineIndex_def)

lemma apply_edit_not_Nil: "ls \<noteq> [] \<Longrightarrow> apply_edit ls e \<noteq> []"
  by (auto simp: apply_edit_def assign_line_def Let_def split_lines_not_Nil)

lemma length_apply_edit_insert:
  "e_type e = js ''insert'' \<Longrightarrow>
     length (apply_edit ls e) = length ls + Suc (count_char LF (or_empty (e_content e)))"
  using lineIndex_le [of ls e]
  by (simp add: apply_edit_def Let_def length_split_lines)

lemma sum_apply_edit_insert:
  "e_type e = js ''insert'' \<Longrightarrow> \<forall>l \<in> set ls. count_char LF l = 0 \<Longrightarrow>
     sum_list (map (count_char LF) (apply_edit ls e)) = 0"
  by (simp add: apply_edit_def Let_def sum_list_take_zero sum_list_drop_zero sum_LF_split_lines)

lemma line_count_insert:
  assumes "e_type e = js ''insert''"
  shows "line_count (join_lines (apply_edit (split_lines code) e)) =
           line_count code + count_char LF (or_empty (e_content e)) + 1"
proof -
  have "line_count (join_lines (apply_edit (split_lines code) e)) =
          length (apply_edit (split_lines code) e) +
          sum_list (map (count_char LF) (apply_edit (split_lines code) e))"
    by (rule line_count_join_lines) (simp add: apply_edit_not_Nil split_lines_not_Nil)
  also have "\<dots> = length (split_lines code) + Suc (count_char LF (or_empty (e_content e)))"
    using assms by (simp add: length_apply_edit_insert sum_apply_edit_insert LF_split_lines)
  finally show ?thesis
    by (simp add: line_count_def)
qed

lemma line_count_assign:
  assumes "\<forall>l \<in> set ls. count_char LF l = 0" "ls \<noteq> []" "i \<le> length ls"
  shows "line_count (join_lines (assign_line ls i x)) =
           length ls + count_char LF x + (if i < length ls then 0 else 1)"
proof -
  have ne: "assign_line ls i x \<noteq> []"
    using assms(2) by (auto simp: assign_line_def)
  have "sum_list (map (count_char LF) (assign_line ls i x)) = count_char LF x"
    using assms(1) by (auto simp: assign_line_def sum_list_update_zero)
  moreover have "length (assign_line ls i x) = length ls + (if i < length ls then 0 else 1)"
    by (simp add: assign_line_def)
  ultimately show ?thesis
    using line_count_join_lines [OF ne] by simp
qed

lemma line_count_same:
  "line_count (join_lines (split_lines code)) = line_count code"
  using line_count_join_lines [of "split_lines code"]
  by (simp add: split_lines_not_Nil sum_LF_split_lines line_count_def)

lemma replace_not_insert: "js ''replace'' \<noteq> js ''insert''"
  by (simp add: js_def)

lemma lineIndex_in_range:
  "e_line e = Some l \<Longrightarrow> l \<le> int (length ls) \<Longrightarrow> ls \<noteq> [] \<Longrightarrow> lineIndex ls e < length ls"
  by (cases ls) (auto simp: lineIndex_def max_def min_def)

lemma line_count_replace_in_range:
  assumes "e_type e = js ''replace''" "e_line e = Some l" "l \<le> int (line_count code)"
  shows "line_count (join_lines (apply_edit (split_lines code) e)) =
           line_count code + count_char LF (replacement_text e)"
proof -
  have i: "lineIndex (split_lines code) e < length (split_lines code)"
    using assms(2,3) by (intro lineIndex_in_range) (simp_all add: line_count_def split_lines_not_Nil)
  have "apply_edit (split_lines code) e =
      assign_line (split_lines code) (lineIndex (split_lines code) e) (replacement_text e)"
    using assms(1,2) by (simp add: apply_edit_def Let_def replace_not_insert)
  then show ?thesis
    using i line_count_assign [of "split_lines code" "lineIndex (split_lines code) e"
        "replacement_text e"]
    by (simp add: LF_split_lines split_lines_not_Nil line_count_def)
qed

lemma line_count_no_edit:
  assumes "e_type e \<noteq> js ''insert''" "e_type e \<noteq> js ''replace'' \<or> e_line e = None"
  shows "line_count (join_lines (apply_edit (split_lines code) e)) = line_count code"
proof -
  have "apply_edit (split_lines code) e = split_lines code"
    using assms by (auto simp: apply_edit_def Let_def)
  then show ?thesis
    by (simp add: line_count_same)
qed

section \<open>Patterns that are one literal\<close>

lemma strip_prefix_iff: "strip_prefix p s = Some r \<longleftrightarrow> s = p @ r"
  by (induction p s rule: strip_prefix.induct) auto


lemma search_Anywhere_None:
  "search Anywhere m b s = None \<longleftrightarrow> (\<forall>t. suffix t s \<longrightarrow> m t = [])"
  by (induction s arbitrary: b) (auto simp: suffix_Cons split: list.splits)


section \<open>What a match of the patterns looks like\<close>

lemma star_elem: "e \<in> set (star P s) \<Longrightarrow> \<exists>u. s = u @ e \<and> (\<forall>c \<in> set u. P c)"
proof (induction s)
  case Nil
  then show ?case by simp
next
  case (Cons c s)
  show ?case
  proof (cases "P c \<and> e \<in> set (star P s)")
    case True
    then obtain u where "s = u @ e" "\<forall>c \<in> set u. P c"
      using Cons.IH by blast
    then have "c # s = (c # u) @ e \<and> (\<forall>x \<in> set (c # u). P x)"
      using True by simp
    then show ?thesis by blast
  next
    case False
    then have "e = c # s"
      using Cons.prems by (auto split: if_splits)
    then show ?thesis by simp
  qed
qed

lemma lit_elem: "e \<in> set (lit p s) \<Longrightarrow> s = p @ e"
  by (cases "strip_prefix p s") (auto simp: lit_def strip_prefix_iff)

lemma eol_elem: "e \<in> set (eol s) \<Longrightarrow> e = s"
  by (cases s) (auto split: if_splits)

lemma eoi_elem: "e \<in> set (eoi s) \<Longrightarrow> e = [] \<and> s = []"
  by (cases s) auto

lemma seq_elem: "e \<in> set (seq m1 m2 s) \<longleftrightarrow> (\<exists>r \<in> set (m1 s). e \<in> set (m2 r))"
  by (auto simp: seq_def)

lemma search_Some:
  "search a m b s = Some (t, e) \<Longrightarrow> suffix t s \<and> e \<in> set (m t)"
proof (induction s arbitrary: b)
  case Nil
  then show ?case by (auto split: list.splits if_splits)
next
  case (Cons c s)
  show ?case
  proof (cases "if a = Anywhere \<or> b then m (c # s) else []")
    case Nil
    then have "search a m (isLineTerminator c) s = Some (t, e)"
      using Cons.prems by simp
    then show ?thesis
      using Cons.IH by (auto simp: suffix_Cons)
  next
    case (Cons x xs)
    then have "t = c # s" "e = x"
      using Cons.prems by simp_all
    then show ?thesis
      using Cons by (auto split: if_splits)
  qed
qed

lemma printf_line_shape:
  assumes "e \<in> set (snd re_printf_line t)"
  shows "\<exists>pre u. t = pre @ 41 # u @ e \<and> (\<forall>c \<in> set u. isBlank c)"
proof -
  from assms obtain r1 r2 r3 r4 r5 r6 r7 where
    r: "r1 \<in> set (star dot t)" "r2 \<in> set (lit (js ''printf'') r1)"
       "r3 \<in> set (star isSpace r2)" "r4 \<in> set (lit (js ''('') r3)"
       "r5 \<in> set (star notSemicolon r4)" "r6 \<in> set (lit (js '')'') r5)"
       "r7 \<in> set (star isBlank r6)" "e \<in> set (eol r7)"
    by (auto simp: re_printf_line_def seqs_def seq_elem eps_def)
  have "suffix r5 t"
    using r(1-5) by (auto dest!: star_elem lit_elem simp: suffix_def)
  then obtain pre where pre: "t = pre @ r5"
    by (auto simp: suffix_def)
  have "r5 = 41 # r6"
    using lit_elem [OF r(6)] by (simp add: js_def)
  moreover obtain u where "r6 = u @ r7" "\<forall>c \<in> set u. isBlank c"
    using star_elem [OF r(7)] by blast
  moreover have "e = r7"
    using r(8) by (rule eol_elem)
  ultimately show ?thesis
    using pre by auto
qed

lemma no_trailing_semicolon:
  assumes "\<forall>c \<in> set u. isBlank c"
  shows "\<not> test re_trailing_semicolon (pre @ 41 # u)"
proof -
  have "snd re_trailing_semicolon x = []" if x: "suffix x (pre @ 41 # u)" for x
  proof (rule ccontr)
    assume "snd re_trailing_semicolon x \<noteq> []"
    then obtain e where "e \<in> set (snd re_trailing_semicolon x)"
      by (cases "snd re_trailing_semicolon x") auto
    then obtain r1 r2 where
      r: "r1 \<in> set (lit (js '';'') x)" "r2 \<in> set (star isSpace r1)" "e \<in> set (eoi r2)"
      by (auto simp: re_trailing_semicolon_def seqs_def seq_elem eps_def)
    have x1: "x = 59 # r1"
      using lit_elem [OF r(1)] by (simp add: js_def)
    have "r2 = []"
      using eoi_elem [OF r(3)] by simp
    then have sp: "\<forall>c \<in> set r1. isSpace c"
      using star_elem [OF r(2)] by auto
    have "\<not> isSpace 41" "\<not> isBlank 59"
      by (simp_all add: isSpace_def isBlank_def)
    from x consider "suffix x (41 # u)" | xs where "x = xs @ 41 # u"
      by (auto simp: suffix_append)
    then show False
    proof cases
      case 1
      then have "x = 41 # u \<or> suffix x u"
        by (simp add: suffix_Cons)
      then have "59 \<in> set u"
        using x1 by (auto simp: suffix_def)
      then show False
        using assms \<open>\<not> isBlank 59\<close> by blast
    next
      case 2
      then have "41 \<in> set x" by simp
      then have "41 \<in> set r1"
        using x1 by simp
      then show False
        using sp \<open>\<not> isSpace 41\<close> by blast
    qed
  qed
  then show ?thesis
    by (simp add: test_def exec_def search_Anywhere_None re_trailing_semicolon_def)
qed

lemma match1_printf_line:
  assumes "match1 re_printf_line code = Some t"
  shows "\<not> test re_trailing_semicolon t"
proof -
  from assms obtain b e where be: "exec re_printf_line code = Some (b, e)"
    and t: "t = take (length b - length e) b"
    by (auto simp: match1_def split: option.splits)
  then have "e \<in> set (snd re_printf_line b)"
    by (auto simp: exec_def dest: search_Some)
  then obtain pre u where "b = pre @ 41 # u @ e" "\<forall>c \<in> set u. isBlank c"
    using printf_line_shape by blast
  then have "t = pre @ 41 # u \<and> (\<forall>c \<in> set u. isBlank c)"
    using t by simp
  then show ?thesis
    using no_trailing_semicolon by blast
qed

lemma match1_None: "match1 re s = None \<longleftrightarrow> \<not> test re s"
  by (auto simp: match1_def test_def split: option.splits)

text \<open>
  What the pattern of the missing-semicolon check matches, without the matcher: from the
  start of a line, code units of that line, \<open>printf\<close>, white space, \<open>(\<close>, a text
  without a semicolon (it may run over several lines), \<open>)\<close>, blanks, and the end of a
  line.
\<close>

lemma star_complete: "\<forall>c \<in> set u. P c \<Longrightarrow> r \<in> set (star P (u @ r))"
proof (induction u)
  case Nil
  show ?case by (cases r) auto
next
  case (Cons c u)
  then show ?case by simp
qed

lemma star_iff: "e \<in> set (star P s) \<longleftrightarrow> (\<exists>u. s = u @ e \<and> (\<forall>c \<in> set u. P c))"
  using star_elem [of e P s] star_complete [of _ P e] by blast

lemma strip_prefix_append: "strip_prefix p (p @ e) = Some e"
  by (simp add: strip_prefix_iff)

lemma lit_mem_iff: "e \<in> set (lit p s) \<longleftrightarrow> s = p @ e"
proof
  assume "e \<in> set (lit p s)"
  then show "s = p @ e" by (rule lit_elem)
next
  assume "s = p @ e"
  then show "e \<in> set (lit p s)"
    by (simp add: lit_def strip_prefix_append)
qed

lemma eol_iff: "e \<in> set (eol s) \<longleftrightarrow> e = s \<and> (s = [] \<or> isLineTerminator (hd s))"
  by (cases s) auto

lemma search_LineStart:
  "search LineStart m b s \<noteq> None \<longleftrightarrow>
     (b \<and> m s \<noteq> []) \<or>
     (\<exists>pre t. s = pre @ t \<and> pre \<noteq> [] \<and> isLineTerminator (last pre) \<and> m t \<noteq> [])"
proof (induction s arbitrary: b)
  case Nil
  show ?case by (auto split: list.splits)
next
  case (Cons c s)
  have split: "(\<exists>pre t. c # s = pre @ t \<and> pre \<noteq> [] \<and> isLineTerminator (last pre) \<and> m t \<noteq> []) \<longleftrightarrow>
      (isLineTerminator c \<and> m s \<noteq> []) \<or>
      (\<exists>pre t. s = pre @ t \<and> pre \<noteq> [] \<and> isLineTerminator (last pre) \<and> m t \<noteq> [])"
    (is "?L \<longleftrightarrow> ?A \<or> ?B")
  proof
    assume ?L
    then obtain pre t where p: "c # s = pre @ t" "pre \<noteq> []" "isLineTerminator (last pre)" "m t \<noteq> []"
      by blast
    then obtain pre' where pre: "pre = c # pre'" "s = pre' @ t"
      by (cases pre) auto
    show "?A \<or> ?B"
    proof (cases pre')
      case Nil
      then show ?thesis using p pre by simp
    next
      case (Cons x xs)
      then have "s = pre' @ t \<and> pre' \<noteq> [] \<and> isLineTerminator (last pre') \<and> m t \<noteq> []"
        using p pre by simp
      then show ?thesis by blast
    qed
  next
    assume "?A \<or> ?B"
    then show ?L
    proof
      assume ?A
      then have "c # s = [c] @ s \<and> [c] \<noteq> [] \<and> isLineTerminator (last [c]) \<and> m s \<noteq> []"
        by simp
      then show ?L by blast
    next
      assume ?B
      then obtain pre t where "s = pre @ t" "pre \<noteq> []" "isLineTerminator (last pre)" "m t \<noteq> []"
        by blast
      then have "c # s = (c # pre) @ t \<and> c # pre \<noteq> [] \<and> isLineTerminator (last (c # pre)) \<and> m t \<noteq> []"
        by simp
      then show ?L by blast
    qed
  qed
  show ?case
  proof (cases "b \<and> m (c # s) \<noteq> []")
    case True
    then show ?thesis by (auto split: list.splits)
  next
    case False
    then have "search LineStart m b (c # s) = search LineStart m (isLineTerminator c) s"
      by (auto split: list.splits)
    then show ?thesis
      using False Cons.IH [of "isLineTerminator c"] split by auto
  qed
qed

lemma printf_line_body_iff:
  "snd re_printf_line t \<noteq> [] \<longleftrightarrow>
     (\<exists>a w b u post. t = a @ js ''printf'' @ w @ js ''('' @ b @ js '')'' @ u @ post \<and>
        (\<forall>c \<in> set a. dot c) \<and> (\<forall>c \<in> set w. isSpace c) \<and> (\<forall>c \<in> set b. notSemicolon c) \<and>
        (\<forall>c \<in> set u. isBlank c) \<and> (post = [] \<or> isLineTerminator (hd post)))"
proof -
  have "snd re_printf_line t \<noteq> [] \<longleftrightarrow> (\<exists>e. e \<in> set (snd re_printf_line t))"
    by (cases "snd re_printf_line t") auto
  also have "\<dots> \<longleftrightarrow>
     (\<exists>a w b u post. t = a @ js ''printf'' @ w @ js ''('' @ b @ js '')'' @ u @ post \<and>
        (\<forall>c \<in> set a. dot c) \<and> (\<forall>c \<in> set w. isSpace c) \<and> (\<forall>c \<in> set b. notSemicolon c) \<and>
        (\<forall>c \<in> set u. isBlank c) \<and> (post = [] \<or> isLineTerminator (hd post)))"
    by (simp add: re_printf_line_def seqs_def seq_elem eps_def star_iff lit_mem_iff eol_iff
        Bex_def) blast
  finally show ?thesis .
qed

lemma search_LineStart_True:
  "search LineStart m True s \<noteq> None \<longleftrightarrow>
     (\<exists>pre t. s = pre @ t \<and> (pre = [] \<or> isLineTerminator (last pre)) \<and> m t \<noteq> [])"
  (is "?L \<longleftrightarrow> ?R")
proof
  assume ?L
  then consider "m s \<noteq> []"
    | pre t where "s = pre @ t" "pre \<noteq> []" "isLineTerminator (last pre)" "m t \<noteq> []"
    using search_LineStart [of m True s] by blast
  then show ?R
  proof cases
    case 1
    then have "s = [] @ s \<and> ([] = [] \<or> isLineTerminator (last [])) \<and> m s \<noteq> []"
      by simp
    then show ?thesis by blast
  next
    case 2
    then show ?thesis by blast
  qed
next
  assume ?R
  then obtain pre t where r: "s = pre @ t" "pre = [] \<or> isLineTerminator (last pre)" "m t \<noteq> []"
    by blast
  show ?L
  proof (cases "pre = []")
    case True
    then have "m s \<noteq> []"
      using r by simp
    then show ?thesis
      using search_LineStart [of m True s] by blast
  next
    case False
    then have "\<exists>pre t. s = pre @ t \<and> pre \<noteq> [] \<and> isLineTerminator (last pre) \<and> m t \<noteq> []"
      using r by blast
    then show ?thesis
      using search_LineStart [of m True s] by blast
  qed
qed

lemma printf_line_matches_iff:
  "test re_printf_line code \<longleftrightarrow>
     (\<exists>pre a w b u post.
        code = pre @ a @ js ''printf'' @ w @ js ''('' @ b @ js '')'' @ u @ post \<and>
        (pre = [] \<or> isLineTerminator (last pre)) \<and>
        (\<forall>c \<in> set a. dot c) \<and> (\<forall>c \<in> set w. isSpace c) \<and> (\<forall>c \<in> set b. notSemicolon c) \<and>
        (\<forall>c \<in> set u. isBlank c) \<and> (post = [] \<or> isLineTerminator (hd post)))"
  (is "?L \<longleftrightarrow> ?R")
proof -
  have "fst re_printf_line = LineStart"
    by (simp add: re_printf_line_def)
  then have "?L \<longleftrightarrow> search LineStart (snd re_printf_line) True code \<noteq> None"
    by (simp add: test_def exec_def)
  also have "\<dots> \<longleftrightarrow>
      (\<exists>pre t. code = pre @ t \<and> (pre = [] \<or> isLineTerminator (last pre)) \<and>
         snd re_printf_line t \<noteq> [])"
    by (rule search_LineStart_True)
  also have "\<dots> \<longleftrightarrow> ?R"
  proof
    assume "\<exists>pre t. code = pre @ t \<and> (pre = [] \<or> isLineTerminator (last pre)) \<and>
         snd re_printf_line t \<noteq> []"
    then obtain pre t where pt: "code = pre @ t" "pre = [] \<or> isLineTerminator (last pre)"
        "snd re_printf_line t \<noteq> []"
      by blast
    from pt(3) obtain a w b u post where
      "t = a @ js ''printf'' @ w @ js ''('' @ b @ js '')'' @ u @ post"
      "\<forall>c \<in> set a. dot c" "\<forall>c \<in> set w. isSpace c" "\<forall>c \<in> set b. notSemicolon c"
      "\<forall>c \<in> set u. isBlank c" "post = [] \<or> isLineTerminator (hd post)"
      unfolding printf_line_body_iff by blast
    then show ?R
      using pt(1,2) by blast
  next
    assume ?R
    then obtain pre a w b u post where r:
      "code = pre @ a @ js ''printf'' @ w @ js ''('' @ b @ js '')'' @ u @ post"
      "pre = [] \<or> isLineTerminator (last pre)"
      "\<forall>c \<in> set a. dot c" "\<forall>c \<in> set w. isSpace c" "\<forall>c \<in> set b. notSemicolon c"
      "\<forall>c \<in> set u. isBlank c" "post = [] \<or> isLineTerminator (hd post)"
      by blast
    have "snd re_printf_line (a @ js ''printf'' @ w @ js ''('' @ b @ js '')'' @ u @ post) \<noteq> []"
      unfolding printf_line_body_iff using r(3-7) by blast
    then show "\<exists>pre t. code = pre @ t \<and> (pre = [] \<or> isLineTerminator (last pre)) \<and>
         snd re_printf_line t \<noteq> []"
      using r(1,2) by blast
  qed
  finally show ?thesis .
qed


section \<open>The detector\<close>

lemma msgs_distinct:
  "js ''Unmatched braces'' \<noteq> js ''Extra semicolon detected''"
  "js ''Unmatched braces'' \<noteq> js ''Missing semicolon after statement''"
  "js ''Unmatched braces'' \<noteq> js ''printf may be undeclared (missing #include <stdio.h>)''"
  "js ''Extra semicolon detected'' \<noteq> js ''Missing semicolon after statement''"
  "js ''Extra semicolon detected'' \<noteq> js ''printf may be undeclared (missing #include <stdio.h>)''"
  "js ''Missing semicolon after statement'' \<noteq>
     js ''printf may be undeclared (missing #include <stdio.h>)''"
  by (simp_all add: js_def)

lemma extra_semicolons_message:
  "d \<in> set (extra_semicolons i ls) \<Longrightarrow> d_message d = js ''Extra semicolon detected''"
  by (induction ls arbitrary: i) (auto simp: ExtraSemicolon_def split: if_splits)

lemma filter_extra_none:
  "m \<noteq> js ''Extra semicolon detected'' \<Longrightarrow>
     filter (\<lambda>d. d_message d = m) (extra_semicolons i ls) = []"
  by (auto simp: filter_empty_conv dest: extra_semicolons_message)



lemma analyze_unmatched:
  "filter (\<lambda>d. d_message d = js ''Unmatched braces'') (analyze code) =
     (if count_char 123 code \<noteq> count_char 125 code then [UnmatchedBraces] else [])"
  by (simp add: analyze_def Let_def filter_extra_none msgs_distinct diag_defs
      msgs_distinct[symmetric] split: option.split)


lemma analyze_missing:
  "filter (\<lambda>d. d_message d = js ''Missing semicolon after statement'') (analyze code) =
     (if test re_printf_line code then [MissingSemicolon] else [])"
proof (cases "match1 re_printf_line code")
  case None
  then have "\<not> test re_printf_line code"
    by (simp add: match1_None)
  then show ?thesis
    using None
    by (simp add: analyze_def Let_def filter_extra_none msgs_distinct diag_defs
        msgs_distinct[symmetric])
next
  case (Some t)
  then have "test re_printf_line code"
    using match1_None [of re_printf_line code] by auto
  moreover have "\<not> test re_trailing_semicolon t"
    using Some by (rule match1_printf_line)
  ultimately show ?thesis
    using Some
    by (simp add: analyze_def Let_def filter_extra_none msgs_distinct diag_defs
        msgs_distinct[symmetric])
qed

text \<open>
  C6: for every source buffer, \<open>analyze\<close> emits an \<open>UnmatchedBraces\<close> diagnostic if and
  only if the number of \<open>{\<close> (code unit 123) differs from the number of \<open>}\<close> (code unit
  125), and then exactly once: the diagnostics with the message \<open>Unmatched braces\<close> are
  the one-element list when the counts differ and the empty list when they agree.
\<close>

theorem unmatched_braces_iff_counts_differ:
  "filter (\<lambda>d. d_message d = js ''Unmatched braces'') (analyze code) =
     (if count_char 123 code = count_char 125 code then [] else [UnmatchedBraces])"
  by (simp add: analyze_unmatched)

theorem unmatched_braces_iff_counts_differ_witness:
  "filter (\<lambda>d. d_message d = js ''Unmatched braces'') (analyze (js ''int f() { if (x) { }'')) =
     [UnmatchedBraces]
   \<and> filter (\<lambda>d. d_message d = js ''Unmatched braces'') (analyze (js ''int f() { }'')) = []"
  using unmatched_braces_iff_counts_differ [of "js ''int f() { if (x) { }''"]
    unmatched_braces_iff_counts_differ [of "js ''int f() { }''"]
  by (simp add: js_def count_char_def)



text \<open>
  C3, as the code has it: for every source buffer, \<open>analyze\<close> emits at most one
  \<open>MissingSemicolon\<close> diagnostic per call. It emits it exactly when the pattern
  \<open>/(^.*printf\s*\([^;]*\)[ \t]*$)/m\<close> matches somewhere in the buffer (the test for a
  trailing semicolon in the matched text never finds one; \<open>printf_line_matches_iff\<close>
  says what the pattern matches), and the diagnostic carries no line number.
\<close>

theorem missing_semicolon_once_without_line:
  "filter (\<lambda>d. d_message d = js ''Missing semicolon after statement'') (analyze code) =
     (if test re_printf_line code then [MissingSemicolon] else [])
   \<and> d_line MissingSemicolon = None"
  by (simp add: analyze_missing) (simp add: MissingSemicolon_def)

theorem missing_semicolon_once_without_line_witness:
  "filter (\<lambda>d. d_message d = js ''Missing semicolon after statement'')
     (analyze (js ''printf(1)\<newline>printf(2)\<newline>printf(3);'')) = [MissingSemicolon]
   \<and> d_line MissingSemicolon = None"
  using missing_semicolon_once_without_line [of "js ''printf(1)\<newline>printf(2)\<newline>printf(3);''"]
  by (simp add: re_defs pat_defs)

text \<open>
  As it is written the claim fails: in the buffer below the first \<open>printf\<close> call that
  is not followed by a semicolon is on line 3, and the one \<open>MissingSemicolon\<close>
  diagnostic carries no line at all.
\<close>

theorem missing_semicolon_line_counterexample:
  "map d_line (filter (\<lambda>d. d_message d = js ''Missing semicolon after statement'') (analyze (js ''#include <stdio.h>\<newline>int main() {\<newline>  printf(\"hi\")\<newline>}''))) = [None]"
  by (simp add: analyze_missing) (simp add: re_defs pat_defs MissingSemicolon_def)

section \<open>Scenario B\<close>

lemma scenario_B_analyze:
  "analyze (js ''int main() {\<newline>  printf(\"hi\");\<newline>'') = [MissingInclude, UnmatchedBraces]"
  by (simp add: analyze_def re_defs pat_defs Let_def)

lemma scenario_B_fixes:
  "generateFixes (js ''int main() {\<newline>  printf(\"hi\");\<newline>'') [MissingInclude, UnmatchedBraces] =
     [include_fix, close_brace_fix [js ''int main() {'', js ''  printf(\"hi\");'', []]]"
  by (simp add: generateFixes_def some_message_def diag_defs re_defs pat_defs Let_def)

text \<open>
  C2, as the code has it: for the input \<open>int main() {\n  printf("hi");\n\<close> the
  diagnostics are \<open>MissingInclude\<close> and \<open>UnmatchedBraces\<close>, in this order (the buffer
  calls \<open>printf\<close> and has no include directive), and \<open>generateFixes\<close> returns two
  edits: the insertion of the include directive at line 1, and the insertion of
  \<open>\n}\<close> at line 4, one past the three lines of the buffer (the third line is the empty
  line after the last newline).
\<close>

theorem scenario_B_two_diagnostics_two_edits:
  "analyze (js ''int main() {\<newline>  printf(\"hi\");\<newline>'') = [MissingInclude, UnmatchedBraces] \<and>
   line_count (js ''int main() {\<newline>  printf(\"hi\");\<newline>'') = 3 \<and>
   map f_edit (generateFixes (js ''int main() {\<newline>  printf(\"hi\");\<newline>'') (analyze (js ''int main() {\<newline>  printf(\"hi\");\<newline>''))) =
     [Some \<lparr>e_type = js ''insert'', e_line = Some 1,
            e_content = Some (js ''#include <stdio.h>\<newline>''),
            e_original = None, e_replacement = None\<rparr>,
      Some \<lparr>e_type = js ''insert'', e_line = Some 4, e_content = Some (js ''\<newline>}''),
            e_original = None, e_replacement = None\<rparr>]"
  by (simp add: scenario_B_analyze scenario_B_fixes fix_defs)
     (simp add: line_count_def js_def LF_def CR_def)

text \<open>
  As it is written the claim fails: the diagnostics are not the single
  \<open>UnmatchedBraces\<close>, and there is not exactly one edit.
\<close>

theorem scenario_B_counterexample:
  "analyze (js ''int main() {\<newline>  printf(\"hi\");\<newline>'') \<noteq> [UnmatchedBraces] \<and>
   length (generateFixes (js ''int main() {\<newline>  printf(\"hi\");\<newline>'') (analyze (js ''int main() {\<newline>  printf(\"hi\");\<newline>''))) \<noteq> 1"
  by (simp add: scenario_B_analyze scenario_B_fixes)

section \<open>The edit applier\<close>

text \<open>
  C4, as the code has it: for every source buffer, an insertion raises the number of lines
  by exactly the number of newline characters in its content plus one, whatever its line
  number is (0 and any number beyond the end included: the index is clamped, nothing
  fails); a replacement whose line number is at most the number of lines raises the
  number of lines by exactly the number of newline characters in its replacement; an edit
  of any other type, and a replacement without a line number, leave the number of lines
  as it is.
\<close>

theorem applyFix_line_count:
  "f_edit f = Some e \<Longrightarrow>
     (e_type e = js ''insert'' \<longrightarrow>
        line_count (applyFix code (Some f)) =
          line_count code + count_char LF (edit_text e) + 1) \<and>
     (e_type e = js ''replace'' \<and> e_line e = Some l \<and> l \<le> int (line_count code) \<longrightarrow>
        line_count (applyFix code (Some f)) = line_count code + count_char LF (edit_text e)) \<and>
     (e_type e \<noteq> js ''insert'' \<and> (e_type e \<noteq> js ''replace'' \<or> e_line e = None) \<longrightarrow>
        line_count (applyFix code (Some f)) = line_count code)"
  using line_count_insert [of e code] line_count_replace_in_range [of e l code]
    line_count_no_edit [of e code]
  by (simp add: applyFix_def edit_text_def replace_not_insert)

theorem applyFix_line_count_witness:
  "line_count (js ''a'') = 1 \<and>
   count_char LF (js ''x\<newline>y'') = 1 \<and>
   line_count (applyFix (js ''a'')
     (Some \<lparr>f_description = [], f_confidence = 1, f_edit = Some
         \<lparr>e_type = js ''insert'', e_line = Some 99, e_content = Some (js ''x\<newline>y''),
          e_original = None, e_replacement = None\<rparr>\<rparr>)) = 3 \<and>
   line_count (js ''a\<newline>b'') = 2 \<and>
   line_count (applyFix (js ''a\<newline>b'')
     (Some \<lparr>f_description = [], f_confidence = 1, f_edit = Some
         \<lparr>e_type = js ''replace'', e_line = Some 1, e_content = None,
          e_original = Some (js ''a''), e_replacement = Some (js ''x\<newline>y'')\<rparr>\<rparr>)) = 3"
proof -
  have ins: "f_edit \<lparr>f_description = [], f_confidence = 1, f_edit = Some
         \<lparr>e_type = js ''insert'', e_line = Some 99, e_content = Some (js ''x\<newline>y''),
          e_original = None, e_replacement = None\<rparr>\<rparr> = Some
         \<lparr>e_type = js ''insert'', e_line = Some 99, e_content = Some (js ''x\<newline>y''),
          e_original = None, e_replacement = None\<rparr>"
    by simp
  have rep: "f_edit \<lparr>f_description = [], f_confidence = 1, f_edit = Some
         \<lparr>e_type = js ''replace'', e_line = Some 1, e_content = None,
          e_original = Some (js ''a''), e_replacement = Some (js ''x\<newline>y'')\<rparr>\<rparr> = Some
         \<lparr>e_type = js ''replace'', e_line = Some 1, e_content = None,
          e_original = Some (js ''a''), e_replacement = Some (js ''x\<newline>y'')\<rparr>"
    by simp
  have counts: "line_count (js ''a'') = 1" "line_count (js ''a\<newline>b'') = 2"
    "count_char LF (js ''x\<newline>y'') = 1"
    by (simp_all add: line_count_def js_def count_char_def LF_def CR_def)
  show ?thesis
    using applyFix_line_count [OF ins, where code = "js ''a''" and l = 99]
      applyFix_line_count [OF rep, where code = "js ''a\<newline>b''" and l = 1]
    by (simp add: edit_text_def or_empty_def replacement_text_def replace_not_insert counts)
qed

text \<open>
  As it is written the claim fails: the insertion of the include directive, whose
  content has one newline character, turns a buffer of one line into a buffer of three
  lines.
\<close>

theorem applyFix_line_count_counterexample:
  "line_count (js ''int main(){}'') = 1 \<and>
   count_char LF (js ''#include <stdio.h>\<newline>'') = 1 \<and>
   applyFix (js ''int main(){}'') (Some include_fix) =
     js ''#include <stdio.h>\<newline>\<newline>int main(){}'' \<and>
   line_count (applyFix (js ''int main(){}'') (Some include_fix)) = 3"
  by (simp add: apply_defs fix_defs re_defs)

lemma apply_edit_replace_in_range:
  "e_type e = js ''replace'' \<Longrightarrow> e_line e = Some l \<Longrightarrow> l \<le> int (length ls) \<Longrightarrow> ls \<noteq> [] \<Longrightarrow>
     apply_edit ls e = ls[nat (l - 1) := replacement_text e]"
  by (auto simp: apply_edit_def lineIndex_def assign_line_def replace_not_insert Let_def
      max_def min_def)

lemma apply_edit_replace_past_end:
  "e_type e = js ''replace'' \<Longrightarrow> e_line e = Some l \<Longrightarrow> int (length ls) < l \<Longrightarrow>
     apply_edit ls e = ls @ [replacement_text e]"
  by (auto simp: apply_edit_def lineIndex_def assign_line_def replace_not_insert Let_def
      max_def min_def)

text \<open>
  C5: a replacement whose line number is beyond the last line is to overwrite the last
  line and to leave the number of lines as it is. The code does not: in a buffer of the
  one line \<open>a\<close>, the replacement of line 2 (a fix as \<open>generateFixes\<close> builds it for a
  second line \<open>printf(1)\<close>) leaves line 1 as it is and adds a second line.
\<close>

theorem replace_past_end_appends:
  "applyFix (js ''a'') (Some (semicolon_fix 1 (js ''printf(1)''))) = js ''a\<newline>printf(1);'' \<and>
   line_count (js ''a'') = 1 \<and>
   line_count (applyFix (js ''a'') (Some (semicolon_fix 1 (js ''printf(1)'')))) = 2"
  by (simp add: apply_defs fix_defs re_defs)

section \<open>The fix synthesizer\<close>

lemma lineIndex_close_brace_fix:
  "f_edit (close_brace_fix ls) = Some e \<Longrightarrow> lineIndex ls e = length ls"
  by (auto simp: close_brace_fix_def lineIndex_def)

lemma applyFix_close_brace_fix:
  "applyFix code (Some (close_brace_fix (split_lines code))) =
     join_lines (split_lines code @ [[], js ''}''])"
  by (simp add: applyFix_def close_brace_fix_def apply_edit_def lineIndex_def Let_def or_empty_def
      js_def LF_def CR_def)

lemma count_after_close_brace_fix:
  assumes "c \<noteq> LF" "c \<noteq> CR"
  shows "count_char c (applyFix code (Some (close_brace_fix (split_lines code)))) =
           count_char c code + count_char c (js ''}'')"
  using assms
  by (simp add: applyFix_close_brace_fix count_join_lines count_split_lines)
     (simp add: count_char_def)

lemma unmatched_in_analyze:
  "count_char 123 code \<noteq> count_char 125 code \<Longrightarrow> UnmatchedBraces \<in> set (analyze code)"
  by (simp add: analyze_def Let_def)

lemma brace_message: "test re_msg_brace (d_message UnmatchedBraces)"
  by (simp add: UnmatchedBraces_def re_msg_brace_def re_defs)

lemma some_message_brace:
  "count_char 123 code \<noteq> count_char 125 code \<Longrightarrow> some_message re_msg_brace (analyze code)"
  using unmatched_in_analyze [of code] brace_message
  by (auto simp: some_message_def list_ex_iff)

lemma close_brace_fix_proposed:
  assumes less: "count_char 125 code < count_char 123 code"
  shows "close_brace_fix (split_lines code) \<in> set (generateFixes code (analyze code))"
proof -
  have sm: "some_message re_msg_brace (analyze code)"
    using less by (intro some_message_brace) simp
  show ?thesis
    by (simp only: generateFixes_def Let_def less sm if_True set_append Un_iff list.set
        insert_iff) blast
qed

text \<open>
  C1, as the code has it: for every source buffer with more \<open>{\<close> than \<open>}\<close>,
  \<open>generateFixes\<close> proposes the insertion of \<open>\n}\<close> at line length + 1, and after that
  edit is applied, \<open>analyze\<close> emits no \<open>UnmatchedBraces\<close> diagnostic exactly when the
  buffer had one \<open>{\<close> more than \<open>}\<close>: the edit adds one closing brace.
\<close>

theorem close_brace_fix_settles_one_brace:
  assumes "count_char 125 code < count_char 123 code"
  shows "close_brace_fix (split_lines code) \<in> set (generateFixes code (analyze code)) \<and>
     (filter (\<lambda>d. d_message d = js ''Unmatched braces'')
        (analyze (applyFix code (Some (close_brace_fix (split_lines code))))) = []
      \<longleftrightarrow> count_char 123 code = count_char 125 code + 1)"
  using assms close_brace_fix_proposed [OF assms]
  by (simp add: analyze_unmatched count_after_close_brace_fix LF_def CR_def)
     (simp add: js_def count_char_def)

theorem close_brace_fix_settles_one_brace_witness:
  "count_char 125 (js ''f() {'') < count_char 123 (js ''f() {'') \<and>
   close_brace_fix (split_lines (js ''f() {'')) \<in>
     set (generateFixes (js ''f() {'') (analyze (js ''f() {''))) \<and>
   filter (\<lambda>d. d_message d = js ''Unmatched braces'')
     (analyze (applyFix (js ''f() {'') (Some (close_brace_fix (split_lines (js ''f() {'')))))) = []"
proof -
  have h: "count_char 125 (js ''f() {'') < count_char 123 (js ''f() {'')"
    by (simp add: js_def count_char_def)
  have one: "count_char 123 (js ''f() {'') = count_char 125 (js ''f() {'') + 1"
    by (simp add: js_def count_char_def)
  show ?thesis
    using h one close_brace_fix_settles_one_brace [OF h] by blast
qed

text \<open>
  As it is written the claim fails: a buffer with two \<open>{\<close> and no \<open>}\<close> has one
  \<open>}\<close> after the edit, and \<open>analyze\<close> emits \<open>UnmatchedBraces\<close> again.
\<close>

theorem close_brace_fix_counterexample:
  "count_char 125 (js ''{{'') < count_char 123 (js ''{{'') \<and>
   applyFix (js ''{{'') (Some (close_brace_fix (split_lines (js ''{{'')))) =
     js ''{{\<newline>\<newline>}'' \<and>
   analyze (applyFix (js ''{{'') (Some (close_brace_fix (split_lines (js ''{{''))))) =
     [UnmatchedBraces]"
  by (simp add: analyze_def apply_defs fix_defs re_defs pat_defs Let_def)

lemma generateFixes_at_most_four: "length (generateFixes code errors) \<le> 4"
  by (simp add: generateFixes_def Let_def split: option.split prod.split)

text \<open>
  C7: \<open>generateFixes\<close> is to return at most one edit for each kind of diagnostic in its
  input. The code does not: the message of an \<open>ExtraSemicolon\<close> diagnostic also passes
  the test \<open>/semicolon/i\<close> of the missing-semicolon branch. For the buffer below (its
  second line ends in a form feed) \<open>analyze\<close> returns the one diagnostic
  \<open>ExtraSemicolon\<close> at line 3, and \<open>generateFixes\<close> returns two edits, the first of them
  the one of the kind \<open>MissingSemicolon\<close>. The same happens for the buffer
  \<open>printf(1)\nx;;\<close> with the one diagnostic \<open>ExtraSemicolon\<close> at line 2.
\<close>

theorem extra_semicolon_yields_two_edits:
  "analyze (js ''#include <stdio.h>\<newline>printf(1)'' @ [12, 10] @ js ''x;;'') = [ExtraSemicolon 3] \<and>
   generateFixes (js ''#include <stdio.h>\<newline>printf(1)'' @ [12, 10] @ js ''x;;'') (analyze (js ''#include <stdio.h>\<newline>printf(1)'' @ [12, 10] @ js ''x;;'')) =
     [semicolon_fix 1 (js ''printf(1)'' @ [12]), extra_semicolon_fix 2 (js ''x;;'')] \<and>
   generateFixes (js ''printf(1)\<newline>x;;'') [ExtraSemicolon 2] =
     [semicolon_fix 0 (js ''printf(1)''), extra_semicolon_fix 1 (js ''x;;'')]"
proof -
  have a: "analyze (js ''#include <stdio.h>\<newline>printf(1)'' @ [12, 10] @ js ''x;;'') = [ExtraSemicolon 3]"
    by (simp add: analyze_def re_defs pat_defs Let_def numeral_2_eq_2 numeral_3_eq_3)
  have b: "generateFixes (js ''#include <stdio.h>\<newline>printf(1)'' @ [12, 10] @ js ''x;;'') [ExtraSemicolon 3] =
     [semicolon_fix 1 (js ''printf(1)'' @ [12]), extra_semicolon_fix 2 (js ''x;;'')]"
    by (simp add: generateFixes_def some_message_def diag_defs re_defs pat_defs Let_def
        numeral_2_eq_2 numeral_3_eq_3)
  have c: "generateFixes (js ''printf(1)\<newline>x;;'') [ExtraSemicolon 2] =
     [semicolon_fix 0 (js ''printf(1)''), extra_semicolon_fix 1 (js ''x;;'')]"
    by (simp add: generateFixes_def some_message_def diag_defs re_defs pat_defs Let_def)
  show ?thesis
    using a b c by simp
qed

section \<open>The handlers\<close>

lemma fix_errors_eq: "fix_errors code = analyze code"
  by (simp add: fix_errors_def analyze_def Let_def)

lemma generateFixes_Nil: "generateFixes code [] = []"
  by (simp add: generateFixes_def some_message_def Let_def)

text \<open>
  C9: for every code string, the fixes that \<open>POST /fix\<close> returns are the fixes that
  \<open>POST /compile\<close> returns for the same code.
\<close>

theorem fix_handler_eq_compile_fixes: "fix_handler code = r_fixes (compile code)"
  by (simp add: fix_handler_def compile_def fix_errors_eq generateFixes_Nil Let_def)

text \<open>
  C10: for every input with no diagnostic, the answer of \<open>POST /compile\<close> is a success
  and its tokens are the constant list of the keyword \<open>int\<close> and the identifier
  \<open>main\<close>, both at line 1, whatever the input text is.
\<close>

theorem success_tokens_constant:
  "analyze code = [] \<Longrightarrow>
     r_status (compile code) = js ''success'' \<and>
     r_tokens (compile code) =
       [\<lparr>t_type = js ''keyword'', t_value = js ''int'', t_line = 1\<rparr>,
        \<lparr>t_type = js ''identifier'', t_value = js ''main'', t_line = 1\<rparr>]"
  by (simp add: compile_def success_tokens_def)

theorem success_tokens_constant_witness:
  "analyze (js ''float x = 2;'') = [] \<and>
   r_status (compile (js ''float x = 2;'')) = js ''success'' \<and>
   r_tokens (compile (js ''float x = 2;'')) =
     [\<lparr>t_type = js ''keyword'', t_value = js ''int'', t_line = 1\<rparr>,
      \<lparr>t_type = js ''identifier'', t_value = js ''main'', t_line = 1\<rparr>]"
proof -
  have none: "analyze (js ''float x = 2;'') = []"
    by (simp add: analyze_def re_defs pat_defs Let_def)
  show ?thesis
    using none success_tokens_constant [OF none] by simp
qed

end
